theory Spec2Isabelle
  imports Main
begin

section \<open>Data model of the guardian package\<close>

text \<open>
  The supervisor of \<^verbatim>\<open>src/guardian/guardian.go\<close> keeps four Go maps and an
  optional spawn timeout. A Go error made by \<^verbatim>\<open>errors.New\<close> or
  \<^verbatim>\<open>fmt.Errorf\<close> is its message (\<open>Error\<close>); a runtime panic is kept apart
  from it, since a panic unwinds the caller. A public operation replies nil, one
  such error, or a \<^verbatim>\<open>*multierror.Error\<close>, which is the list of the messages
  it wraps (\<open>Aggregate\<close>).
\<close>

datatype error = Error string | Panic string

datatype reply = Nil | Single error | Aggregate "string list"

record serviceSettings =
  env :: "string list"
  execName :: string

text \<open>
  The part of \<^verbatim>\<open>*exec.Cmd\<close> the package reads: \<^verbatim>\<open>p.Process.Pid\<close>,
  \<^verbatim>\<open>p.Env\<close> and \<^verbatim>\<open>p.Path\<close>.
\<close>

record cmd =
  cmdPid :: int
  cmdEnv :: "string list"
  cmdPath :: string

record serviceStatus =
  Running :: bool
  PID :: int
  Env :: "string list"
  Location :: string

text \<open>
  Modelled from the spec: \<^verbatim>\<open>FixedSizeLog\<close>, \<^verbatim>\<open>NewFixedSizeLog\<close> and its
  \<^verbatim>\<open>Append\<close> are used by \<^verbatim>\<open>AppendToLog\<close> but their file is not among the
  sources. The spec (4.1) fixes the capacity at creation, fails fast on a capacity
  that is not positive, appends the line as the newest entry after discarding the
  oldest one when the buffer already holds capacity-many lines, and returns the lines
  oldest first as the snapshot.
\<close>

record FixedSizeLog =
  capacity :: int
  lines :: "string list"

definition NewFixedSizeLog :: "int \<Rightarrow> error + FixedSizeLog" where
  "NewFixedSizeLog n =
     (if n \<le> 0 then Inl (Panic ''log capacity must be positive'')
      else Inr \<lparr>capacity = n, lines = []\<rparr>)"

definition FixedSizeLog_Append :: "FixedSizeLog \<Rightarrow> string \<Rightarrow> FixedSizeLog" where
  "FixedSizeLog_Append l line =
     (if int (length (lines l)) \<ge> capacity l
      then l\<lparr>lines := tl (lines l) @ [line]\<rparr>
      else l\<lparr>lines := lines l @ [line]\<rparr>)"

definition snapshot :: "FixedSizeLog \<Rightarrow> string list" where
  "snapshot l = lines l"

type_synonym conn = nat

text \<open>
  \<^verbatim>\<open>services\<close> is a \<^verbatim>\<open>map[string]*exec.Cmd\<close>: a key is missing
  (\<open>None\<close>), present with a nil pointer (\<open>Some None\<close>) or present with a live
  command (\<open>Some (Some p)\<close>). The mutex is not part of the sequential model.
\<close>

record GladiusGuardian =
  spawnTimeout :: "int option"
  registeredServices :: "string \<rightharpoonup> serviceSettings"
  services :: "string \<rightharpoonup> cmd option"
  serviceLogs :: "string \<rightharpoonup> FixedSizeLog"
  serviceWebSockets :: "string \<rightharpoonup> conn list"

text \<open>The configuration source (viper) with the two keys the package reads.\<close>

record viper =
  DefaultEnvironment :: "string list"
  MaxLogLines :: int

text \<open>
  What the operating system does with one spawn, as \<^verbatim>\<open>spawnProcess\<close> observes it:
  either pipe creation or \<^verbatim>\<open>p.Start()\<close> fails with a message, or the process
  starts with a pid and, after the sleep, \<^verbatim>\<open>p.ProcessState\<close> is nil (the
  watcher's \<^verbatim>\<open>Wait\<close> has not concluded) or holds a state whose
  \<^verbatim>\<open>Exited()\<close> is the given flag.
\<close>

datatype ProcessState = ProcessState (Exited: bool)

datatype spawn_obs =
    StdoutPipeFails string
  | StderrPipeFails string
  | StartFails string
  | Started int "ProcessState option"

record oskit =
  lookPath :: "string \<Rightarrow> string"
  observe :: "string \<Rightarrow> spawn_obs"
  killResult :: "int \<Rightarrow> string option"

text \<open>Effects that leave the supervisor's own state.\<close>

datatype event =
    ProcStarted int string "string list"
  | KillSent int
  | WsWrite conn string

section \<open>The operations of guardian.go\<close>

definition New :: GladiusGuardian where
  "New = \<lparr>spawnTimeout = None, registeredServices = Map.empty, services = Map.empty,
          serviceLogs = Map.empty, serviceWebSockets = Map.empty\<rparr>"

text \<open>Reading \<^verbatim>\<open>gg.services[name]\<close>: a missing key reads as nil.\<close>

definition lookupCmd :: "(string \<rightharpoonup> cmd option) \<Rightarrow> string \<Rightarrow> cmd option" where
  "lookupCmd m name = (case m name of None \<Rightarrow> None | Some v \<Rightarrow> v)"

definition newServiceStatus :: "cmd option \<Rightarrow> serviceStatus" where
  "newServiceStatus p =
     (case p of
        Some c \<Rightarrow> \<lparr>Running = True, PID = cmdPid c, Env = cmdEnv c, Location = cmdPath c\<rparr>
      | None \<Rightarrow> \<lparr>Running = False, PID = 0, Env = [], Location = []\<rparr>)"

definition RegisterService :: "GladiusGuardian \<Rightarrow> string \<Rightarrow> string \<Rightarrow> string list \<Rightarrow> GladiusGuardian" where
  "RegisterService gg name execLocation e =
     gg\<lparr>registeredServices := (registeredServices gg)(name \<mapsto> \<lparr>env = e, execName = execLocation\<rparr>),
        services := (services gg)(name \<mapsto> None),
        serviceWebSockets := (serviceWebSockets gg)(name \<mapsto> [])\<rparr>"

definition updateWebsocketLog :: "GladiusGuardian \<Rightarrow> string \<Rightarrow> string \<Rightarrow> event list" where
  "updateWebsocketLog gg serviceName logLine =
     map (\<lambda>c. WsWrite c logLine)
       (case serviceWebSockets gg serviceName of None \<Rightarrow> [] | Some cs \<Rightarrow> cs)"

definition SetTimeout :: "GladiusGuardian \<Rightarrow> int option \<Rightarrow> GladiusGuardian" where
  "SetTimeout gg t = gg\<lparr>spawnTimeout := t\<rparr>"

text \<open>
  \<^verbatim>\<open>GetServicesStatus\<close>: with the sentinel, one entry per key of
  \<^verbatim>\<open>gg.services\<close>; otherwise one entry, for the name asked.
\<close>

definition GetServicesStatus :: "GladiusGuardian \<Rightarrow> string \<Rightarrow> (string \<rightharpoonup> serviceStatus)" where
  "GetServicesStatus gg name =
     (if name = ''all'' \<or> name = ''''
      then (\<lambda>serviceName. map_option newServiceStatus (services gg serviceName))
      else [name \<mapsto> newServiceStatus (lookupCmd (services gg) name)])"

definition stopServiceInternal :: "oskit \<Rightarrow> GladiusGuardian \<Rightarrow> string \<Rightarrow> string option \<times> event list" where
  "stopServiceInternal os gg name =
     (case registeredServices gg name of
        None \<Rightarrow> (Some ''attempted to stop unregistered service'', [])
      | Some serviceSettings \<Rightarrow>
          (case lookupCmd (services gg) name of
             None \<Rightarrow> (Some ''service is not running so can not stop'', [])
           | Some service \<Rightarrow>
               (case killResult os (cmdPid service) of
                  Some m \<Rightarrow> (Some (''couldn't kill service, error was: '' @ m),
                             [KillSent (cmdPid service)])
                | None \<Rightarrow> (None, [KillSent (cmdPid service)]))))"

text \<open>
  \<^verbatim>\<open>*multierror.Error\<close> while it is built is the list of the messages appended
  so far (nil is the empty list); \<^verbatim>\<open>ErrorOrNil\<close> is nil when nothing was
  appended.
\<close>

definition ErrorOrNil :: "string list \<Rightarrow> reply" where
  "ErrorOrNil result = (if result = [] then Nil else Aggregate result)"

text \<open>
  The loop of \<^verbatim>\<open>StopService\<close> over \<^verbatim>\<open>range gg.registeredServices\<close>. Go leaves
  the order of a map range open, so the order is the argument \<open>ks\<close>: any
  enumeration of the keys without repetition.
\<close>

fun stopAllLoop :: "oskit \<Rightarrow> GladiusGuardian \<Rightarrow> string list \<Rightarrow> string list \<Rightarrow> string list \<times> event list" where
  "stopAllLoop os gg [] result = (result, [])"
| "stopAllLoop os gg (sName # rest) result =
     (case stopServiceInternal os gg sName of
        (Some err, evs) \<Rightarrow>
          (case stopAllLoop os gg rest
                  (result @ [''error stopping service '' @ sName @ '': '' @ err]) of
             (r, evs') \<Rightarrow> (r, evs @ evs'))
      | (None, evs) \<Rightarrow>
          (case stopAllLoop os gg rest result of (r, evs') \<Rightarrow> (r, evs @ evs')))"

definition StopService :: "oskit \<Rightarrow> GladiusGuardian \<Rightarrow> string list \<Rightarrow> string \<Rightarrow> reply \<times> event list" where
  "StopService os gg ks name =
     (if name = ''all'' \<or> name = ''''
      then (case stopAllLoop os gg ks [] of (result, evs) \<Rightarrow> (ErrorOrNil result, evs))
      else (case stopServiceInternal os gg name of
              (Some err, evs) \<Rightarrow> (Single (Error err), evs)
            | (None, evs) \<Rightarrow> (Nil, evs)))"

definition checkTimeout :: "GladiusGuardian \<Rightarrow> error option" where
  "checkTimeout gg =
     (if spawnTimeout gg = None
      then Some (Error ''spawn timeout not set, please set it before a process is spawned'')
      else None)"

text \<open>
  \<^verbatim>\<open>spawnProcess\<close>, the part that runs in the caller: the command is built from
  the location and the environment handed in, the pipes are made, the process is
  started, the caller sleeps for \<^verbatim>\<open>*timeout\<close> (a nil pointer panics there, after
  the start) and then reads \<^verbatim>\<open>p.ProcessState\<close>, asking \<^verbatim>\<open>Exited()\<close> only when
  it is not nil. The reader goroutines and the watcher are separate steps below.
\<close>

definition spawnProcess :: "oskit \<Rightarrow> string \<Rightarrow> string \<Rightarrow> string list \<Rightarrow> int option \<Rightarrow> (error + cmd) \<times> event list" where
  "spawnProcess os name location e timeout =
     (case observe os name of
        StdoutPipeFails m \<Rightarrow> (Inl (Error (''Error creating StdoutPipe for command: '' @ m)), [])
      | StderrPipeFails m \<Rightarrow> (Inl (Error (''Error creating StderrPipe for command: '' @ m)), [])
      | StartFails m \<Rightarrow> (Inl (Error (''Error starting process: '' @ m)), [])
      | Started pid ps \<Rightarrow>
          (let p = \<lparr>cmdPid = pid, cmdEnv = e, cmdPath = lookPath os location\<rparr>;
               evs = [ProcStarted pid (lookPath os location) e]
           in case timeout of
                None \<Rightarrow> (Inl (Panic ''invalid memory address or nil pointer dereference''), evs)
              | Some t \<Rightarrow>
                  (case ps of
                     Some st \<Rightarrow>
                       if Exited st
                       then (Inl (Error (''process '' @ name @ '' already exited, check the logs for errors'')), evs)
                       else (Inr p, evs)
                   | None \<Rightarrow> (Inr p, evs))))"

text \<open>
  \<^verbatim>\<open>startServiceInternal\<close>. The local \<^verbatim>\<open>env\<close> (the caller's, or the default
  when the caller's is empty) only reaches the debug log line; the spawn is handed
  \<^verbatim>\<open>serviceSettings.env\<close>.
\<close>

definition startServiceInternal :: "viper \<Rightarrow> oskit \<Rightarrow> GladiusGuardian \<Rightarrow> string \<Rightarrow> string list \<Rightarrow> error option \<times> GladiusGuardian \<times> event list" where
  "startServiceInternal cfg os gg name e =
     (case registeredServices gg name of
        None \<Rightarrow> (Some (Error ''attempted to start unregistered service''), gg, [])
      | Some serviceSettings \<Rightarrow>
          if lookupCmd (services gg) name \<noteq> None
          then (Some (Error (''can't start '' @ name @ '' because it's already running'')), gg, [])
          else
            (let e' = (if length e = 0 then DefaultEnvironment cfg else e) in
             case checkTimeout gg of
               Some err \<Rightarrow> (Some err, gg, [])
             | None \<Rightarrow>
                 (case spawnProcess os name (execName serviceSettings) (env serviceSettings) (spawnTimeout gg) of
                    (Inl err, evs) \<Rightarrow> (Some err, gg, evs)
                  | (Inr p, evs) \<Rightarrow> (None, gg\<lparr>services := (services gg)(name \<mapsto> Some p)\<rparr>, evs))))"

text \<open>
  The loop of \<^verbatim>\<open>StartService\<close> over \<^verbatim>\<open>range gg.registeredServices\<close>, in the
  order \<open>ks\<close>; a panic in one start unwinds the loop.
\<close>

fun startAllLoop :: "viper \<Rightarrow> oskit \<Rightarrow> GladiusGuardian \<Rightarrow> string list \<Rightarrow> string list \<Rightarrow> string list \<Rightarrow> (string + string list) \<times> GladiusGuardian \<times> event list" where
  "startAllLoop cfg os gg [] e result = (Inr result, gg, [])"
| "startAllLoop cfg os gg (sName # rest) e result =
     (case startServiceInternal cfg os gg sName e of
        (Some (Panic m), gg', evs) \<Rightarrow> (Inl m, gg', evs)
      | (Some (Error m), gg', evs) \<Rightarrow>
          (case startAllLoop cfg os gg' rest e
                  (result @ [''error starting service '' @ sName @ '': '' @ m]) of
             (r, gg'', evs') \<Rightarrow> (r, gg'', evs @ evs'))
      | (None, gg', evs) \<Rightarrow>
          (case startAllLoop cfg os gg' rest e result of
             (r, gg'', evs') \<Rightarrow> (r, gg'', evs @ evs')))"

definition StartService :: "viper \<Rightarrow> oskit \<Rightarrow> GladiusGuardian \<Rightarrow> string list \<Rightarrow> string \<Rightarrow> string list \<Rightarrow> reply \<times> GladiusGuardian \<times> event list" where
  "StartService cfg os gg ks name e =
     (if name = ''all'' \<or> name = ''''
      then (case startAllLoop cfg os gg ks e [] of
              (Inl m, gg', evs) \<Rightarrow> (Single (Panic m), gg', evs)
            | (Inr result, gg', evs) \<Rightarrow> (ErrorOrNil result, gg', evs))
      else (case startServiceInternal cfg os gg name e of
              (Some err, gg', evs) \<Rightarrow> (Single err, gg', evs)
            | (None, gg', evs) \<Rightarrow> (Nil, gg', evs)))"

text \<open>
  \<^verbatim>\<open>AddLogClient\<close>: the upgrade of the connection either fails (nothing is
  stored) or yields a connection, which is appended to the service's list.
\<close>

definition AddLogClient :: "GladiusGuardian \<Rightarrow> string \<Rightarrow> conn option \<Rightarrow> GladiusGuardian" where
  "AddLogClient gg serviceName upgraded =
     (case upgraded of
        None \<Rightarrow> gg
      | Some c \<Rightarrow>
          gg\<lparr>serviceWebSockets := (serviceWebSockets gg)
               (serviceName \<mapsto> (case serviceWebSockets gg serviceName of None \<Rightarrow> [] | Some cs \<Rightarrow> cs) @ [c])\<rparr>)"

text \<open>
  \<^verbatim>\<open>AppendToLog\<close>: the buffer is made on the first line of a service, with the
  configured capacity; the line is appended and written to every connection of the
  service.
\<close>

definition AppendToLog :: "viper \<Rightarrow> GladiusGuardian \<Rightarrow> string \<Rightarrow> string \<Rightarrow> error option \<times> GladiusGuardian \<times> event list" where
  "AppendToLog cfg gg serviceName line =
     (case (case serviceLogs gg serviceName of
              None \<Rightarrow> NewFixedSizeLog (MaxLogLines cfg)
            | Some l \<Rightarrow> Inr l) of
        Inl err \<Rightarrow> (Some err, gg, [])
      | Inr l \<Rightarrow>
          (None,
           gg\<lparr>serviceLogs := (serviceLogs gg)(serviceName \<mapsto> FixedSizeLog_Append l line)\<rparr>,
           updateWebsocketLog gg serviceName line))"

text \<open>
  A reader goroutine of \<^verbatim>\<open>spawnProcess\<close>: every scanned line goes to
  \<^verbatim>\<open>AppendToLog\<close>; a panic ends the loop.
\<close>

fun readerLoop :: "viper \<Rightarrow> GladiusGuardian \<Rightarrow> string \<Rightarrow> string list \<Rightarrow> error option \<times> GladiusGuardian \<times> event list" where
  "readerLoop cfg gg name [] = (None, gg, [])"
| "readerLoop cfg gg name (l # ls) =
     (case AppendToLog cfg gg name l of
        (Some err, gg', evs) \<Rightarrow> (Some err, gg', evs)
      | (None, gg', evs) \<Rightarrow>
          (case readerLoop cfg gg' name ls of (r, gg'', evs') \<Rightarrow> (r, gg'', evs @ evs')))"

text \<open>
  The goroutine \<^verbatim>\<open>spawnProcess\<close> starts after \<^verbatim>\<open>p.Start()\<close>: once
  \<^verbatim>\<open>p.Wait()\<close> returns (with nil or with an error, given by its message) the
  service's entry is set to nil, and the error is logged unless it is nil or reads
  \<^verbatim>\<open>signal: killed\<close>.
\<close>

definition watcher :: "viper \<Rightarrow> GladiusGuardian \<Rightarrow> string \<Rightarrow> string option \<Rightarrow> error option \<times> GladiusGuardian \<times> event list" where
  "watcher cfg gg name waitErr =
     (let gg1 = gg\<lparr>services := (services gg)(name \<mapsto> None)\<rparr> in
      case waitErr of
        None \<Rightarrow> (None, gg1, [])
      | Some m \<Rightarrow>
          if m \<noteq> ''signal: killed''
          then AppendToLog cfg gg1 name (''Exiting... '' @ m)
          else (None, gg1, []))"

section \<open>The operations of the second snapshot (src/unnamed/part_000)\<close>

text \<open>
  The second snapshot has no \<^verbatim>\<open>serviceWebSockets\<close> field; its names carry the
  suffix \<open>_p0\<close>. \<^verbatim>\<open>serviceSettings\<close>, \<^verbatim>\<open>serviceStatus\<close> and
  \<^verbatim>\<open>newServiceStatus\<close> are the same text in both files.
\<close>

record GladiusGuardian_p0 =
  spawnTimeout_p0 :: "int option"
  registeredServices_p0 :: "string \<rightharpoonup> serviceSettings"
  services_p0 :: "string \<rightharpoonup> cmd option"
  serviceLogs_p0 :: "string \<rightharpoonup> FixedSizeLog"

definition New_p0 :: GladiusGuardian_p0 where
  "New_p0 = \<lparr>spawnTimeout_p0 = None, registeredServices_p0 = Map.empty,
             services_p0 = Map.empty, serviceLogs_p0 = Map.empty\<rparr>"

definition RegisterService_p0 :: "GladiusGuardian_p0 \<Rightarrow> string \<Rightarrow> string \<Rightarrow> string list \<Rightarrow> GladiusGuardian_p0" where
  "RegisterService_p0 gg name execLocation e =
     gg\<lparr>registeredServices_p0 := (registeredServices_p0 gg)(name \<mapsto> \<lparr>env = e, execName = execLocation\<rparr>),
        services_p0 := (services_p0 gg)(name \<mapsto> None)\<rparr>"

definition SetTimeout_p0 :: "GladiusGuardian_p0 \<Rightarrow> int option \<Rightarrow> GladiusGuardian_p0" where
  "SetTimeout_p0 gg t = gg\<lparr>spawnTimeout_p0 := t\<rparr>"

definition GetServicesStatus_p0 :: "GladiusGuardian_p0 \<Rightarrow> (string \<rightharpoonup> serviceStatus)" where
  "GetServicesStatus_p0 gg =
     (\<lambda>serviceName. map_option newServiceStatus (services_p0 gg serviceName))"

text \<open>
  \<^verbatim>\<open>StopAll\<close> ranges over \<^verbatim>\<open>gg.services\<close> (in the order \<open>ks\<close>). For a
  running service it kills and appends the kill's error, nil or not (\<^verbatim>\<open>%s\<close>
  prints a nil error as \<^verbatim>\<open>%!s(<nil>)\<close>); then, for every service, it appends
  the not-running message.
\<close>

fun StopAllLoop_p0 :: "oskit \<Rightarrow> GladiusGuardian_p0 \<Rightarrow> string list \<Rightarrow> string list \<Rightarrow> string list \<times> event list" where
  "StopAllLoop_p0 os gg [] result = (result, [])"
| "StopAllLoop_p0 os gg (sName # rest) result =
     (case lookupCmd (services_p0 gg) sName of
        Some s \<Rightarrow>
          (case StopAllLoop_p0 os gg rest
                  (result @
                   [''error stopping service '' @ sName @ '': '' @
                      (case killResult os (cmdPid s) of None \<Rightarrow> ''%!s(<nil>)'' | Some m \<Rightarrow> m),
                    ''service not running: '' @ sName]) of
             (r, evs') \<Rightarrow> (r, KillSent (cmdPid s) # evs'))
      | None \<Rightarrow> StopAllLoop_p0 os gg rest (result @ [''service not running: '' @ sName]))"

definition StopAll_p0 :: "oskit \<Rightarrow> GladiusGuardian_p0 \<Rightarrow> string list \<Rightarrow> reply \<times> event list" where
  "StopAll_p0 os gg ks =
     (case StopAllLoop_p0 os gg ks [] of (result, evs) \<Rightarrow> (ErrorOrNil result, evs))"

definition checkTimeout_p0 :: "GladiusGuardian_p0 \<Rightarrow> error option" where
  "checkTimeout_p0 gg =
     (if spawnTimeout_p0 gg = None
      then Some (Error ''spawn timeout not set, please set it before a process is spawned'')
      else None)"

text \<open>
  \<^verbatim>\<open>spawnProcess\<close> of the second snapshot calls \<^verbatim>\<open>p.ProcessState.Exited()\<close>
  without looking at the pointer: on a nil \<^verbatim>\<open>ProcessState\<close> the method reads a
  field through nil and panics.
\<close>

definition spawnProcess_p0 :: "oskit \<Rightarrow> string \<Rightarrow> string \<Rightarrow> string list \<Rightarrow> int option \<Rightarrow> (error + cmd) \<times> event list" where
  "spawnProcess_p0 os name location e timeout =
     (case observe os name of
        StdoutPipeFails m \<Rightarrow> (Inl (Error (''Error creating StdoutPipe for command: '' @ m)), [])
      | StderrPipeFails m \<Rightarrow> (Inl (Error (''Error creating StderrPipe for command: '' @ m)), [])
      | StartFails m \<Rightarrow> (Inl (Error (''Error starting process: '' @ m)), [])
      | Started pid ps \<Rightarrow>
          (let p = \<lparr>cmdPid = pid, cmdEnv = e, cmdPath = lookPath os location\<rparr>;
               evs = [ProcStarted pid (lookPath os location) e]
           in case timeout of
                None \<Rightarrow> (Inl (Panic ''invalid memory address or nil pointer dereference''), evs)
              | Some t \<Rightarrow>
                  (case ps of
                     None \<Rightarrow> (Inl (Panic ''invalid memory address or nil pointer dereference''), evs)
                   | Some st \<Rightarrow>
                       if Exited st
                       then (Inl (Error (''process '' @ name @ '' already exited, check the logs for errors'')), evs)
                       else (Inr p, evs))))"

definition StartService_p0 :: "viper \<Rightarrow> oskit \<Rightarrow> GladiusGuardian_p0 \<Rightarrow> string \<Rightarrow> string list \<Rightarrow> error option \<times> GladiusGuardian_p0 \<times> event list" where
  "StartService_p0 cfg os gg name e =
     (case registeredServices_p0 gg name of
        None \<Rightarrow> (Some (Error ''attempted to start unregistered service''), gg, [])
      | Some serviceSettings \<Rightarrow>
          if lookupCmd (services_p0 gg) name \<noteq> None
          then (Some (Error (''can't start '' @ name @ '' because it's already running'')), gg, [])
          else
            (let e' = (if length e = 0 then DefaultEnvironment cfg else e) in
             case checkTimeout_p0 gg of
               Some err \<Rightarrow> (Some err, gg, [])
             | None \<Rightarrow>
                 (case spawnProcess_p0 os name (execName serviceSettings) (env serviceSettings) (spawnTimeout_p0 gg) of
                    (Inl err, evs) \<Rightarrow> (Some err, gg, evs)
                  | (Inr p, evs) \<Rightarrow> (None, gg\<lparr>services_p0 := (services_p0 gg)(name \<mapsto> Some p)\<rparr>, evs))))"

definition StopService_p0 :: "oskit \<Rightarrow> GladiusGuardian_p0 \<Rightarrow> string \<Rightarrow> string option \<times> event list" where
  "StopService_p0 os gg name =
     (case registeredServices_p0 gg name of
        None \<Rightarrow> (Some ''attempted to stop unregistered service'', [])
      | Some serviceSettings \<Rightarrow>
          (case lookupCmd (services_p0 gg) name of
             None \<Rightarrow> (Some ''service is not running so can not stop'', [])
           | Some service \<Rightarrow>
               (case killResult os (cmdPid service) of
                  Some m \<Rightarrow> (Some (''couldn't kill service, error was: '' @ m),
                             [KillSent (cmdPid service)])
                | None \<Rightarrow> (None, [KillSent (cmdPid service)]))))"

text \<open>
  \<^verbatim>\<open>AddLogClient\<close> of the second snapshot stores nothing: after the upgrade it
  starts a goroutine that writes a fixed test message to the connection every
  second. The supervisor's state is as before.
\<close>

definition AddLogClient_p0 :: "GladiusGuardian_p0 \<Rightarrow> conn option \<Rightarrow> GladiusGuardian_p0" where
  "AddLogClient_p0 gg upgraded = gg"

definition AppendToLog_p0 :: "viper \<Rightarrow> GladiusGuardian_p0 \<Rightarrow> string \<Rightarrow> string \<Rightarrow> error option \<times> GladiusGuardian_p0 \<times> event list" where
  "AppendToLog_p0 cfg gg serviceName line =
     (case (case serviceLogs_p0 gg serviceName of
              None \<Rightarrow> NewFixedSizeLog (MaxLogLines cfg)
            | Some l \<Rightarrow> Inr l) of
        Inl err \<Rightarrow> (Some err, gg, [])
      | Inr l \<Rightarrow>
          (None,
           gg\<lparr>serviceLogs_p0 := (serviceLogs_p0 gg)(serviceName \<mapsto> FixedSizeLog_Append l line)\<rparr>,
           []))"

definition watcher_p0 :: "viper \<Rightarrow> GladiusGuardian_p0 \<Rightarrow> string \<Rightarrow> string option \<Rightarrow> error option \<times> GladiusGuardian_p0 \<times> event list" where
  "watcher_p0 cfg gg name waitErr =
     (let gg1 = gg\<lparr>services_p0 := (services_p0 gg)(name \<mapsto> None)\<rparr> in
      case waitErr of
        None \<Rightarrow> (None, gg1, [])
      | Some m \<Rightarrow>
          if m \<noteq> ''signal: killed''
          then AppendToLog_p0 cfg gg1 name (''Exiting... '' @ m)
          else (None, gg1, []))"

text \<open>What the second snapshot's state type can hold of the first one's.\<close>

definition forget :: "GladiusGuardian \<Rightarrow> GladiusGuardian_p0" where
  "forget gg = \<lparr>spawnTimeout_p0 = spawnTimeout gg,
                registeredServices_p0 = registeredServices gg,
                services_p0 = services gg,
                serviceLogs_p0 = serviceLogs gg\<rparr>"

section \<open>Reachable states\<close>

text \<open>
  The states the supervisor of guardian.go can be in: \<open>reach b gg\<close> holds when
  \<open>gg\<close> results from \<^verbatim>\<open>New()\<close> by calls of the public operations and by steps
  of the background goroutines, and \<open>b\<close> tells whether \<^verbatim>\<open>SetTimeout\<close> was ever
  called on the way. \<^verbatim>\<open>StopService\<close> and \<^verbatim>\<open>GetServicesStatus\<close> write
  nothing. A watcher belongs to a process of a registered service.
\<close>

inductive reach :: "bool \<Rightarrow> GladiusGuardian \<Rightarrow> bool" where
  reach_New: "reach False New"
| reach_RegisterService: "reach b gg \<Longrightarrow> reach b (RegisterService gg name execLocation e)"
| reach_SetTimeout: "reach b gg \<Longrightarrow> reach True (SetTimeout gg t)"
| reach_StartService:
    "reach b gg \<Longrightarrow> StartService cfg os gg ks name e = (r, gg', evs) \<Longrightarrow> reach b gg'"
| reach_watcher:
    "reach b gg \<Longrightarrow> registeredServices gg name \<noteq> None \<Longrightarrow>
     watcher cfg gg name waitErr = (r, gg', evs) \<Longrightarrow> reach b gg'"
| reach_AppendToLog:
    "reach b gg \<Longrightarrow> AppendToLog cfg gg name line = (r, gg', evs) \<Longrightarrow> reach b gg'"
| reach_AddLogClient: "reach b gg \<Longrightarrow> reach b (AddLogClient gg name upgraded)"

code_pred reach .

text \<open>
  The invariant of the reachable states: the process table has the keys of the
  registry, and while \<^verbatim>\<open>SetTimeout\<close> was never called no timeout is set and no
  entry holds a process.
\<close>

definition table_inv :: "bool \<Rightarrow> GladiusGuardian \<Rightarrow> bool" where
  "table_inv b gg \<longleftrightarrow>
     (\<forall>n. services gg n = None \<longleftrightarrow> registeredServices gg n = None) \<and>
     (\<not> b \<longrightarrow> spawnTimeout gg = None \<and> (\<forall>n. lookupCmd (services gg) n = None))"

section \<open>A concrete run\<close>

text \<open>
  One service, \<open>worker\<close>, registered with the environment \<open>A=1\<close>, a timeout of
  50, and an operating system that starts every process with pid 7, leaves it running
  through the grace period and delivers every kill.
\<close>

definition example_cfg :: viper where
  "example_cfg = \<lparr>DefaultEnvironment = [''D=0''], MaxLogLines = 2\<rparr>"

definition example_os :: oskit where
  "example_os = \<lparr>lookPath = (\<lambda>p. p), observe = (\<lambda>n. Started 7 None), killResult = (\<lambda>p. None)\<rparr>"

definition example_registered :: GladiusGuardian where
  "example_registered = SetTimeout (RegisterService New ''worker'' ''/bin/sleep'' [''A=1'']) (Some 50)"

definition example_running :: GladiusGuardian where
  "example_running =
     fst (snd (StartService example_cfg example_os example_registered [''worker''] ''worker'' [''B=2'']))"

section \<open>The bounded log buffer\<close>

lemma drop_last_n_append:
  "drop (length (drop (length zs - n) zs @ xs) - n) (drop (length zs - n) zs @ xs)
     = drop (length (zs @ xs) - n) (zs @ (xs::'a list))"
proof -
  have a: "drop (length zs - n) zs @ xs = drop (length zs - n) (zs @ xs)" by simp
  have b: "length (drop (length zs - n) (zs @ xs)) - n + (length zs - n) = length (zs @ xs) - n"
    by simp
  show ?thesis
    by (simp only: a drop_drop b)
qed

lemma FixedSizeLog_Append_lines:
  assumes "capacity l = int n" "0 < n" "length (lines l) \<le> n"
  shows "lines (FixedSizeLog_Append l x) = drop (length (lines l @ [x]) - n) (lines l @ [x])"
proof (cases "length (lines l) = n")
  case True
  then have "lines l \<noteq> []" using assms by auto
  then obtain a as where "lines l = a # as" by (cases "lines l") auto
  then show ?thesis using True assms by (simp add: FixedSizeLog_Append_def)
next
  case False
  then have "length (lines l) < n" using assms by simp
  then show ?thesis using assms by (simp add: FixedSizeLog_Append_def)
qed

lemma FixedSizeLog_Append_capacity: "capacity (FixedSizeLog_Append l x) = capacity l"
  by (simp add: FixedSizeLog_Append_def)

lemma foldl_Append_lines:
  assumes "capacity l = int n" "0 < n" "lines l = drop (length zs - n) zs"
  shows "lines (foldl FixedSizeLog_Append l ls) = drop (length (zs @ ls) - n) (zs @ ls)
   \<and> capacity (foldl FixedSizeLog_Append l ls) = int n"
  using assms
proof (induction ls arbitrary: l zs)
  case Nil
  then show ?case by simp
next
  case (Cons x xs)
  let ?l' = "FixedSizeLog_Append l x"
  have c: "capacity ?l' = int n" using Cons.prems by (simp add: FixedSizeLog_Append_capacity)
  have len: "length (lines l) \<le> n" using Cons.prems(3) by simp
  have "lines ?l' = drop (length (lines l @ [x]) - n) (lines l @ [x])"
    using Cons.prems(1,2) len by (rule FixedSizeLog_Append_lines)
  then have step: "lines ?l' = drop (length ((zs @ [x])) - n) (zs @ [x])"
    using drop_last_n_append [of zs n "[x]"] Cons.prems(3) by simp
  show ?case
    using Cons.IH [OF c Cons.prems(2) step] by simp
qed

section \<open>Invariants of the reachable states\<close>

lemma AppendToLog_frame:
  "AppendToLog cfg gg name line = (r, gg', evs) \<Longrightarrow>
   services gg' = services gg \<and> registeredServices gg' = registeredServices gg \<and>
   spawnTimeout gg' = spawnTimeout gg \<and> serviceWebSockets gg' = serviceWebSockets gg"
  by (auto simp: AppendToLog_def split: option.splits sum.splits)

lemma startServiceInternal_inv:
  "startServiceInternal cfg os gg name e = (r, gg', evs) \<Longrightarrow> table_inv b gg \<Longrightarrow> table_inv b gg'"
  by (auto simp: startServiceInternal_def table_inv_def checkTimeout_def
           split: option.splits if_splits prod.splits sum.splits)

lemma startAllLoop_inv:
  "startAllLoop cfg os gg ks e result = (r, gg', evs) \<Longrightarrow> table_inv b gg \<Longrightarrow> table_inv b gg'"
proof (induction ks arbitrary: gg result r gg' evs)
  case Nil
  then show ?case by simp
next
  case (Cons k ks)
  obtain r1 gg1 evs1 where s: "startServiceInternal cfg os gg k e = (r1, gg1, evs1)"
    by (cases "startServiceInternal cfg os gg k e") auto
  have i1: "table_inv b gg1" using startServiceInternal_inv [OF s Cons.prems(2)] .
  show ?case
  proof (cases r1)
    case None
    then show ?thesis using Cons.prems(1) s Cons.IH [OF _ i1]
      by (auto split: prod.splits)
  next
    case (Some err)
    then show ?thesis using Cons.prems(1) s Cons.IH [OF _ i1] i1
      by (cases err) (auto split: prod.splits)
  qed
qed

lemma StartService_inv:
  "StartService cfg os gg ks name e = (r, gg', evs) \<Longrightarrow> table_inv b gg \<Longrightarrow> table_inv b gg'"
  by (auto simp: StartService_def split: if_splits prod.splits sum.splits option.splits
           dest: startAllLoop_inv startServiceInternal_inv)

lemma watcher_inv:
  "watcher cfg gg name waitErr = (r, gg', evs) \<Longrightarrow> registeredServices gg name \<noteq> None \<Longrightarrow>
   table_inv b gg \<Longrightarrow> table_inv b gg'"
  by (auto simp: watcher_def table_inv_def lookupCmd_def Let_def
           split: option.splits if_splits dest!: AppendToLog_frame)

lemma reach_table_inv: "reach b gg \<Longrightarrow> table_inv b gg"
proof (induction rule: reach.induct)
  case reach_New
  then show ?case by (simp add: table_inv_def New_def lookupCmd_def)
next
  case (reach_RegisterService b gg name execLocation e)
  then show ?case by (auto simp: table_inv_def RegisterService_def lookupCmd_def)
next
  case (reach_SetTimeout b gg t)
  then show ?case by (simp add: table_inv_def SetTimeout_def)
next
  case (reach_StartService b gg cfg os ks name e r gg' evs)
  then show ?case using StartService_inv by blast
next
  case (reach_watcher b gg name cfg waitErr r gg' evs)
  then show ?case using watcher_inv by blast
next
  case (reach_AppendToLog b gg cfg name line r gg' evs)
  then show ?case using AppendToLog_frame [OF reach_AppendToLog.hyps(2)]
    by (simp add: table_inv_def)
next
  case (reach_AddLogClient b gg name upgraded)
  then show ?case by (auto simp: table_inv_def AddLogClient_def split: option.splits)
qed

section \<open>Facts of the concrete run\<close>

lemmas example_defs = example_cfg_def example_os_def example_registered_def example_running_def

lemma example_running_services:
  "services example_running = [''worker'' \<mapsto> Some \<lparr>cmdPid = 7, cmdEnv = [''A=1''], cmdPath = ''/bin/sleep''\<rparr>]"
  by (simp add: example_defs StartService_def startServiceInternal_def New_def
      RegisterService_def SetTimeout_def lookupCmd_def checkTimeout_def spawnProcess_def)

lemma example_running_registered:
  "registeredServices example_running = [''worker'' \<mapsto> \<lparr>env = [''A=1''], execName = ''/bin/sleep''\<rparr>]"
  by (simp add: example_defs StartService_def startServiceInternal_def New_def
      RegisterService_def SetTimeout_def lookupCmd_def checkTimeout_def spawnProcess_def)

lemma example_running_logs: "serviceLogs example_running = Map.empty"
  by (simp add: example_defs StartService_def startServiceInternal_def New_def
      RegisterService_def SetTimeout_def lookupCmd_def checkTimeout_def spawnProcess_def)

section \<open>Appending more lines than the log holds\<close>

lemma readerLoop_existing:
  "serviceLogs gg name = Some l \<Longrightarrow>
   \<exists>gg' evs. readerLoop cfg gg name ls = (None, gg', evs) \<and>
     serviceLogs gg' name = Some (foldl FixedSizeLog_Append l ls)"
proof (induction ls arbitrary: gg l)
  case Nil
  then show ?case by simp
next
  case (Cons x xs)
  let ?gg1 = "gg\<lparr>serviceLogs := (serviceLogs gg)(name \<mapsto> FixedSizeLog_Append l x)\<rparr>"
  have a: "AppendToLog cfg gg name x = (None, ?gg1, updateWebsocketLog gg name x)"
    using Cons.prems by (simp add: AppendToLog_def)
  have "serviceLogs ?gg1 name = Some (FixedSizeLog_Append l x)" by simp
  from Cons.IH [OF this] obtain gg' evs where
    r: "readerLoop cfg ?gg1 name xs = (None, gg', evs)"
    and s: "serviceLogs gg' name = Some (foldl FixedSizeLog_Append (FixedSizeLog_Append l x) xs)"
    by blast
  show ?case using a r s by simp
qed

lemma readerLoop_fresh:
  assumes "MaxLogLines cfg = int N" and "0 < N" and "serviceLogs gg name = None"
    and "ls \<noteq> []"
  shows "\<exists>gg' evs l. readerLoop cfg gg name ls = (None, gg', evs) \<and>
           serviceLogs gg' name = Some l \<and>
           lines l = drop (length ls - N) ls \<and> capacity l = int N"
proof -
  from assms(4) obtain x xs where ls: "ls = x # xs" by (cases ls) auto
  let ?l0 = "\<lparr>capacity = int N, lines = []\<rparr>"
  let ?l1 = "FixedSizeLog_Append ?l0 x"
  let ?gg1 = "gg\<lparr>serviceLogs := (serviceLogs gg)(name \<mapsto> ?l1)\<rparr>"
  have a: "AppendToLog cfg gg name x = (None, ?gg1, updateWebsocketLog gg name x)"
    using assms(1,2,3) by (simp add: AppendToLog_def NewFixedSizeLog_def)
  have "serviceLogs ?gg1 name = Some ?l1" by simp
  from readerLoop_existing [OF this, of cfg xs] obtain gg' evs where
    r: "readerLoop cfg ?gg1 name xs = (None, gg', evs)"
    and s: "serviceLogs gg' name = Some (foldl FixedSizeLog_Append ?l1 xs)"
    by blast
  have f: "foldl FixedSizeLog_Append ?l1 xs = foldl FixedSizeLog_Append ?l0 ls"
    by (simp add: ls)
  let ?l = "foldl FixedSizeLog_Append ?l0 ls"
  have "lines ?l = drop (length ([] @ ls) - N) ([] @ ls) \<and> capacity ?l = int N"
    using assms(2) by (intro foldl_Append_lines) simp_all
  then have li: "lines ?l = drop (length ls - N) ls" and ca: "capacity ?l = int N" by simp_all
  have rl: "readerLoop cfg gg name ls = (None, gg', updateWebsocketLog gg name x @ evs)"
    using a r by (simp add: ls)
  show ?thesis using rl s f li ca by auto
qed

text \<open>
  Claim C7. With a configured capacity \<open>N > 0\<close> and no buffer yet for the service,
  appending more than \<open>N\<close> lines through \<^verbatim>\<open>AppendToLog\<close> succeeds and leaves a
  buffer whose snapshot is exactly the last \<open>N\<close> lines in arrival order, of length
  \<open>N\<close>; one more append drops the oldest line and puts the new one last; and after
  every number of the appends the buffer holds at most \<open>N\<close> lines.
\<close>

theorem log_keeps_last_lines:
  assumes "MaxLogLines cfg = int N" and "0 < N" and "serviceLogs gg name = None"
    and "N < length ls"
  shows "(\<exists>gg' evs l. readerLoop cfg gg name ls = (None, gg', evs) \<and>
           serviceLogs gg' name = Some l \<and>
           snapshot l = drop (length ls - N) ls \<and>
           length (snapshot l) = N \<and>
           (\<forall>x. snapshot (FixedSizeLog_Append l x) = tl (snapshot l) @ [x])) \<and>
         (\<forall>k. 0 < k \<and> k \<le> length ls \<longrightarrow>
           (\<exists>gg' evs l. readerLoop cfg gg name (take k ls) = (None, gg', evs) \<and>
              serviceLogs gg' name = Some l \<and> length (snapshot l) \<le> N))"
proof -
  have ne: "ls \<noteq> []" using assms(4) by auto
  from readerLoop_fresh [OF assms(1,2,3) ne] obtain gg' evs l where
    r: "readerLoop cfg gg name ls = (None, gg', evs)" and s: "serviceLogs gg' name = Some l"
    and li: "lines l = drop (length ls - N) ls" and ca: "capacity l = int N"
    by blast
  have len: "length (lines l) = N" using li assms(4) by simp
  have ev: "\<forall>y. snapshot (FixedSizeLog_Append l y) = tl (snapshot l) @ [y]"
    using len ca by (simp add: snapshot_def FixedSizeLog_Append_def)
  have whole: "\<exists>gg' evs l. readerLoop cfg gg name ls = (None, gg', evs) \<and>
           serviceLogs gg' name = Some l \<and>
           snapshot l = drop (length ls - N) ls \<and>
           length (snapshot l) = N \<and>
           (\<forall>x. snapshot (FixedSizeLog_Append l x) = tl (snapshot l) @ [x])"
    using r s li len ev by (auto simp: snapshot_def)
  have prefix: "\<exists>gg' evs l. readerLoop cfg gg name (take k ls) = (None, gg', evs) \<and>
              serviceLogs gg' name = Some l \<and> length (snapshot l) \<le> N"
    if "0 < k" "k \<le> length ls" for k
  proof -
    have "take k ls \<noteq> []" using that ne by (cases ls) auto
    from readerLoop_fresh [OF assms(1,2,3) this] obtain gg1 evs1 l1 where
      "readerLoop cfg gg name (take k ls) = (None, gg1, evs1)" "serviceLogs gg1 name = Some l1"
      "lines l1 = drop (length (take k ls) - N) (take k ls)"
      by blast
    then show ?thesis by (auto simp: snapshot_def)
  qed
  show ?thesis using whole prefix by blast
qed

theorem log_keeps_last_lines_witness:
  "\<exists>gg' evs l. readerLoop example_cfg New ''worker'' [''a'', ''b'', ''c''] = (None, gg', evs) \<and>
      serviceLogs gg' ''worker'' = Some l \<and> snapshot l = [''b'', ''c'']"
proof -
  have "(\<exists>gg' evs l. readerLoop example_cfg New ''worker'' [''a'', ''b'', ''c''] = (None, gg', evs) \<and>
      serviceLogs gg' ''worker'' = Some l \<and>
      snapshot l = drop (length [''a'', ''b'', ''c''] - 2) [''a'', ''b'', ''c''] \<and>
      length (snapshot l) = 2 \<and>
      (\<forall>x. snapshot (FixedSizeLog_Append l x) = tl (snapshot l) @ [x])) \<and>
     (\<forall>k. 0 < k \<and> k \<le> length [''a'', ''b'', ''c''] \<longrightarrow>
        (\<exists>gg' evs l. readerLoop example_cfg New ''worker'' (take k [''a'', ''b'', ''c'']) = (None, gg', evs) \<and>
           serviceLogs gg' ''worker'' = Some l \<and> length (snapshot l) \<le> 2))"
    by (rule log_keeps_last_lines) (simp_all add: example_cfg_def New_def)
  then show ?thesis by auto
qed

section \<open>Status queries\<close>

text \<open>
  Claim C8. \<^verbatim>\<open>GetServicesStatus\<close> has no failing path: for every state and every
  name it returns a map. For a single name the map has exactly that name; for the
  sentinel it has the keys of the process table. In a reachable state a name that
  was never registered gets the entry with \<open>Running = False\<close>, and every entry with
  \<open>Running = False\<close> has pid 0, no environment and the empty location.
\<close>

theorem GetServicesStatus_never_fails:
  "(name \<noteq> ''all'' \<and> name \<noteq> '''' \<longrightarrow> dom (GetServicesStatus gg name) = {name}) \<and>
   (name = ''all'' \<or> name = '''' \<longrightarrow> dom (GetServicesStatus gg name) = dom (services gg)) \<and>
   (reach b gg \<and> registeredServices gg name = None \<and> name \<noteq> ''all'' \<and> name \<noteq> '''' \<longrightarrow>
      GetServicesStatus gg name name = Some \<lparr>Running = False, PID = 0, Env = [], Location = []\<rparr>) \<and>
   (\<forall>n st. GetServicesStatus gg name n = Some st \<and> \<not> Running st \<longrightarrow>
      PID st = 0 \<and> Env st = [] \<and> Location st = [])"
proof -
  have unknown: "lookupCmd (services gg) name = None"
    if "reach b gg" "registeredServices gg name = None"
  proof -
    have "services gg name = None"
      using reach_table_inv [OF that(1)] that(2) by (simp add: table_inv_def)
    then show ?thesis by (simp add: lookupCmd_def)
  qed
  have zero: "\<not> Running (newServiceStatus p) \<Longrightarrow>
      PID (newServiceStatus p) = 0 \<and> Env (newServiceStatus p) = [] \<and> Location (newServiceStatus p) = []" for p
    by (cases p) (simp_all add: newServiceStatus_def)
  show ?thesis
    using unknown zero
    by (auto simp: GetServicesStatus_def newServiceStatus_def split: if_splits)
qed

theorem GetServicesStatus_never_fails_witness:
  "reach False New \<and> registeredServices New ''ghost'' = None \<and>
   GetServicesStatus New ''ghost'' ''ghost'' = Some \<lparr>Running = False, PID = 0, Env = [], Location = []\<rparr>"
  using GetServicesStatus_never_fails [of "''ghost''" New False] reach_New
  by (simp add: New_def)

section \<open>Starting before a timeout is set\<close>

lemma startAllLoop_untimed:
  assumes "spawnTimeout gg = None" and "\<forall>n. lookupCmd (services gg) n = None"
    and "set ks \<subseteq> dom (registeredServices gg)"
  shows "startAllLoop cfg os gg ks e result =
     (Inr (result @ map (\<lambda>n. ''error starting service '' @ n @
              '': spawn timeout not set, please set it before a process is spawned'') ks), gg, [])"
  using assms(3)
proof (induction ks arbitrary: result)
  case Nil
  then show ?case by simp
next
  case (Cons k ks)
  then obtain ss where "registeredServices gg k = Some ss" by auto
  then have "startServiceInternal cfg os gg k e =
     (Some (Error ''spawn timeout not set, please set it before a process is spawned''), gg, [])"
    using assms(1,2) by (simp add: startServiceInternal_def checkTimeout_def)
  then show ?case using Cons by simp
qed

text \<open>
  Claim C6. In every state reached without a call of \<^verbatim>\<open>SetTimeout\<close>, starting a
  registered service fails with the error "spawn timeout not set ...", starts no
  process (no event) and leaves the state, so also the process table, as it was. For
  the sentinel every registered service gets that error in the aggregate.
\<close>

theorem start_without_timeout_fails:
  assumes "reach False gg" and "registeredServices gg name \<noteq> None"
  shows "startServiceInternal cfg os gg name e =
           (Some (Error ''spawn timeout not set, please set it before a process is spawned''), gg, [])
    \<and> (name \<noteq> ''all'' \<and> name \<noteq> '''' \<longrightarrow>
         StartService cfg os gg ks name e =
           (Single (Error ''spawn timeout not set, please set it before a process is spawned''), gg, []))
    \<and> (set ks \<subseteq> dom (registeredServices gg) \<longrightarrow>
         StartService cfg os gg ks ''all'' e =
           (ErrorOrNil (map (\<lambda>n. ''error starting service '' @ n @
              '': spawn timeout not set, please set it before a process is spawned'') ks), gg, []))"
proof -
  have inv: "spawnTimeout gg = None" "\<forall>n. lookupCmd (services gg) n = None"
    using reach_table_inv [OF assms(1)] by (simp_all add: table_inv_def)
  obtain ss where "registeredServices gg name = Some ss" using assms(2) by auto
  then have s: "startServiceInternal cfg os gg name e =
     (Some (Error ''spawn timeout not set, please set it before a process is spawned''), gg, [])"
    using inv by (simp add: startServiceInternal_def checkTimeout_def)
  show ?thesis
    using s startAllLoop_untimed [OF inv, of ks cfg os e "[]"]
    by (simp add: StartService_def)
qed

theorem start_without_timeout_fails_witness:
  "reach False (RegisterService New ''worker'' ''/bin/sleep'' [''A=1'']) \<and>
   StartService example_cfg example_os (RegisterService New ''worker'' ''/bin/sleep'' [''A=1''])
       [''worker''] ''worker'' [] =
     (Single (Error ''spawn timeout not set, please set it before a process is spawned''),
      RegisterService New ''worker'' ''/bin/sleep'' [''A=1''], [])"
  using start_without_timeout_fails [of "RegisterService New ''worker'' ''/bin/sleep'' [''A=1'']"
      "''worker''" example_cfg example_os "[]" "[''worker'']"]
    reach_RegisterService [OF reach_New, of "''worker''" "''/bin/sleep''" "[''A=1'']"]
  by (simp add: RegisterService_def)

section \<open>Early exit of a spawned process\<close>

text \<open>
  The case the check after the sleep does catch: \<^verbatim>\<open>p.ProcessState\<close> is set and
  \<^verbatim>\<open>Exited()\<close> holds (the child ended by its own exit call). Then
  \<^verbatim>\<open>spawnProcess\<close> returns the error "process ... already exited",
  \<^verbatim>\<open>startServiceInternal\<close> returns that same error and leaves the state as it
  was, so the entry of the service is still nil after the call, also once the watcher
  has run. The start of the second snapshot does the same.
\<close>

lemma early_exit_installs_nothing:
  assumes "registeredServices gg name = Some ss" and "lookupCmd (services gg) name = None"
    and "spawnTimeout gg = Some t" and "observe os name = Started pid (Some st)" and "Exited st"
  shows "spawnProcess os name (execName ss) (env ss) (spawnTimeout gg) =
           (Inl (Error (''process '' @ name @ '' already exited, check the logs for errors'')),
            [ProcStarted pid (lookPath os (execName ss)) (env ss)])
    \<and> startServiceInternal cfg os gg name e =
           (Some (Error (''process '' @ name @ '' already exited, check the logs for errors'')), gg,
            [ProcStarted pid (lookPath os (execName ss)) (env ss)])
    \<and> lookupCmd (services (fst (snd (startServiceInternal cfg os gg name e)))) name = None
    \<and> lookupCmd (services (fst (snd (watcher cfg gg name waitErr)))) name = None
    \<and> StartService_p0 cfg os (forget gg) name e =
           (Some (Error (''process '' @ name @ '' already exited, check the logs for errors'')), forget gg,
            [ProcStarted pid (lookPath os (execName ss)) (env ss)])"
proof -
  have sp: "spawnProcess os name (execName ss) (env ss) (spawnTimeout gg) =
           (Inl (Error (''process '' @ name @ '' already exited, check the logs for errors'')),
            [ProcStarted pid (lookPath os (execName ss)) (env ss)])"
    using assms(3,4,5) by (simp add: spawnProcess_def)
  have st: "startServiceInternal cfg os gg name e =
           (Some (Error (''process '' @ name @ '' already exited, check the logs for errors'')), gg,
            [ProcStarted pid (lookPath os (execName ss)) (env ss)])"
    using assms(1,2,3) sp by (simp add: startServiceInternal_def checkTimeout_def)
  have w: "lookupCmd (services (fst (snd (watcher cfg gg name waitErr)))) name = None"
    by (auto simp: watcher_def AppendToLog_def lookupCmd_def Let_def split: option.splits sum.splits)
  have sp0: "spawnProcess_p0 os name (execName ss) (env ss) (Some t) =
           (Inl (Error (''process '' @ name @ '' already exited, check the logs for errors'')),
            [ProcStarted pid (lookPath os (execName ss)) (env ss)])"
    using assms(4,5) by (simp add: spawnProcess_p0_def)
  have st0: "StartService_p0 cfg os (forget gg) name e =
           (Some (Error (''process '' @ name @ '' already exited, check the logs for errors'')), forget gg,
            [ProcStarted pid (lookPath os (execName ss)) (env ss)])"
    using assms(1,2,3) sp0 by (simp add: StartService_p0_def checkTimeout_p0_def forget_def)
  show ?thesis using sp st w st0 assms(2) by simp
qed

lemma early_exit_installs_nothing_example:
  "startServiceInternal example_cfg (example_os\<lparr>observe := (\<lambda>n. Started 7 (Some (ProcessState True)))\<rparr>)
      example_registered ''worker'' [] =
     (Some (Error ''process worker already exited, check the logs for errors''), example_registered,
      [ProcStarted 7 ''/bin/sleep'' [''A=1'']])
   \<and> lookupCmd (services example_registered) ''worker'' = None"
  using early_exit_installs_nothing [of example_registered "''worker''"
      "\<lparr>env = [''A=1''], execName = ''/bin/sleep''\<rparr>" 50
      "example_os\<lparr>observe := (\<lambda>n. Started 7 (Some (ProcessState True)))\<rparr>" 7 "ProcessState True"
      example_cfg "[]" None]
  by (simp add: example_defs New_def RegisterService_def SetTimeout_def lookupCmd_def)

lemma startServiceInternal_signalled:
  assumes "registeredServices gg name = Some ss" and "lookupCmd (services gg) name = None"
    and "spawnTimeout gg = Some t" and "observe os name = Started pid (Some st)"
    and "\<not> Exited st"
  shows "startServiceInternal cfg os gg name e =
           (None,
            gg\<lparr>services := (services gg)
                 (name \<mapsto> Some \<lparr>cmdPid = pid, cmdEnv = env ss, cmdPath = lookPath os (execName ss)\<rparr>)\<rparr>,
            [ProcStarted pid (lookPath os (execName ss)) (env ss)])"
  using assms by (simp add: startServiceInternal_def checkTimeout_def spawnProcess_def)

text \<open>
  Claim C2, at a failing input. The service \<open>worker\<close> is registered and a timeout
  is set; the child gets pid 7 and is ended by a signal inside the grace period, so
  after the sleep \<^verbatim>\<open>p.ProcessState\<close> is set and its \<^verbatim>\<open>Exited()\<close> is false.
  The start returns nil and records the dead process as running; it does so as well
  when the watcher has already cleared the entry, and in the second snapshot.
\<close>

theorem signalled_child_is_installed:
  "fst (startServiceInternal example_cfg
          (example_os\<lparr>observe := (\<lambda>n. Started 7 (Some (ProcessState False)))\<rparr>)
          example_registered ''worker'' []) = None
   \<and> lookupCmd (services (fst (snd (startServiceInternal example_cfg
          (example_os\<lparr>observe := (\<lambda>n. Started 7 (Some (ProcessState False)))\<rparr>)
          example_registered ''worker'' [])))) ''worker''
     = Some \<lparr>cmdPid = 7, cmdEnv = [''A=1''], cmdPath = ''/bin/sleep''\<rparr>
   \<and> lookupCmd (services (fst (snd (startServiceInternal example_cfg
          (example_os\<lparr>observe := (\<lambda>n. Started 7 (Some (ProcessState False)))\<rparr>)
          (fst (snd (watcher example_cfg example_registered ''worker'' (Some ''signal: killed''))))
          ''worker'' [])))) ''worker''
     = Some \<lparr>cmdPid = 7, cmdEnv = [''A=1''], cmdPath = ''/bin/sleep''\<rparr>
   \<and> fst (StartService_p0 example_cfg
          (example_os\<lparr>observe := (\<lambda>n. Started 7 (Some (ProcessState False)))\<rparr>)
          (forget example_registered) ''worker'' []) = None
   \<and> lookupCmd (services_p0 (fst (snd (StartService_p0 example_cfg
          (example_os\<lparr>observe := (\<lambda>n. Started 7 (Some (ProcessState False)))\<rparr>)
          (forget example_registered) ''worker'' [])))) ''worker''
     = Some \<lparr>cmdPid = 7, cmdEnv = [''A=1''], cmdPath = ''/bin/sleep''\<rparr>"
  by (simp add: example_defs startServiceInternal_def checkTimeout_def spawnProcess_def
      StartService_p0_def checkTimeout_p0_def spawnProcess_p0_def forget_def watcher_def
      New_def RegisterService_def SetTimeout_def lookupCmd_def)

section \<open>The environment of a started process\<close>

lemma startServiceInternal_spawn_env:
  assumes "startServiceInternal cfg os gg name e = (None, gg', evs)"
    and "registeredServices gg name = Some ss"
  shows "\<exists>p. lookupCmd (services gg') name = Some p \<and> cmdEnv p = env ss"
  using assms
  by (auto simp: startServiceInternal_def spawnProcess_def lookupCmd_def Let_def
           split: option.splits if_splits prod.splits sum.splits spawn_obs.splits)

text \<open>
  Claim C4, at a failing input. The service \<open>worker\<close> is registered with the
  environment \<open>A=1\<close>; the start is called with the environment \<open>B=2\<close>. The start
  succeeds, and the process started and recorded has the environment \<open>A=1\<close>. Called
  with no environment, while the default is \<open>D=0\<close>, the process started has \<open>A=1\<close>
  again.
\<close>

theorem start_ignores_caller_environment:
  "StartService example_cfg example_os example_registered [''worker''] ''worker'' [''B=2'']
     = (Nil, example_running, [ProcStarted 7 ''/bin/sleep'' [''A=1'']])
   \<and> lookupCmd (services example_running) ''worker''
     = Some \<lparr>cmdPid = 7, cmdEnv = [''A=1''], cmdPath = ''/bin/sleep''\<rparr>
   \<and> snd (snd (StartService example_cfg example_os example_registered [''worker''] ''worker'' []))
     = [ProcStarted 7 ''/bin/sleep'' [''A=1'']]"
  by (simp add: example_defs StartService_def startServiceInternal_def New_def
      RegisterService_def SetTimeout_def lookupCmd_def checkTimeout_def spawnProcess_def)

section \<open>Registering a running service again\<close>

lemma RegisterService_services:
  "lookupCmd (services (RegisterService gg name execLocation e)) name = None"
  by (simp add: RegisterService_def lookupCmd_def)

text \<open>
  Claim C3, at a failing input. The service \<open>worker\<close> is running with pid 7; after
  \<^verbatim>\<open>RegisterService\<close> is called for it again, its entry in the process table is nil.
\<close>

theorem RegisterService_clears_running_record:
  "lookupCmd (services example_running) ''worker''
     = Some \<lparr>cmdPid = 7, cmdEnv = [''A=1''], cmdPath = ''/bin/sleep''\<rparr>
   \<and> lookupCmd (services (RegisterService example_running ''worker'' ''/bin/sleep'' [''A=1''])) ''worker''
     = None"
  by (simp add: example_running_services lookupCmd_def RegisterService_def)

section \<open>Reading the exit state after the grace period\<close>

lemma spawnProcess_guarded:
  "spawnProcess os name location e (Some t) \<noteq> (Inl (Panic m), evs)"
  by (auto simp: spawnProcess_def Let_def split: spawn_obs.splits option.splits)

lemma spawnProcess_still_running:
  "observe os name = Started pid None \<Longrightarrow>
   spawnProcess os name location e (Some t) =
     (Inr \<lparr>cmdPid = pid, cmdEnv = e, cmdPath = lookPath os location\<rparr>,
      [ProcStarted pid (lookPath os location) e])"
  by (simp add: spawnProcess_def)

text \<open>
  Claim C10, at a failing input. In the second snapshot, a child that is still
  running when the grace period ends (\<^verbatim>\<open>p.ProcessState\<close> is nil) makes
  \<^verbatim>\<open>spawnProcess\<close> panic on the nil pointer, and the start of the service panics
  with it. (In guardian.go the same input returns the running command, by
  \<open>spawnProcess_still_running\<close>.)
\<close>

theorem spawnProcess_p0_panics_on_running_child:
  "spawnProcess_p0 example_os ''worker'' ''/bin/sleep'' [''A=1''] (Some 50)
     = (Inl (Panic ''invalid memory address or nil pointer dereference''),
        [ProcStarted 7 ''/bin/sleep'' [''A=1'']])
   \<and> fst (StartService_p0 example_cfg example_os (forget example_registered) ''worker'' [])
     = Some (Panic ''invalid memory address or nil pointer dereference'')"
  by (simp add: spawnProcess_p0_def example_defs StartService_p0_def forget_def New_def
      RegisterService_def SetTimeout_def lookupCmd_def checkTimeout_p0_def)

section \<open>The termination watcher\<close>

text \<open>
  Claim C5 as stated fails: the running service \<open>worker\<close> exits normally
  (\<^verbatim>\<open>Wait\<close> returns nil), not through a stop; afterwards the service has no log
  and nothing was written.
\<close>

theorem watcher_normal_exit_counterexample:
  "serviceLogs (fst (snd (watcher example_cfg example_running ''worker'' None))) ''worker'' = None
   \<and> snd (snd (watcher example_cfg example_running ''worker'' None)) = []"
  by (simp add: watcher_def example_running_logs)

lemma FixedSizeLog_Append_last:
  "snapshot (FixedSizeLog_Append l x) \<noteq> [] \<and> last (snapshot (FixedSizeLog_Append l x)) = x"
  by (simp add: FixedSizeLog_Append_def snapshot_def)

text \<open>
  Claim C5, amended. When the process exits, the watcher sets the entry of the
  service to nil. When \<^verbatim>\<open>Wait\<close> returned nil, or an error that reads
  \<^verbatim>\<open>signal: killed\<close>, nothing else changes and nothing is logged. When it returned
  another error, and a buffer exists or can be made, the line "Exiting... " followed
  by the error is the newest line of the service's log.
\<close>

theorem watcher_clears_and_logs_errors:
  "lookupCmd (services (fst (snd (watcher cfg gg name waitErr)))) name = None \<and>
   (waitErr = None \<or> waitErr = Some ''signal: killed'' \<longrightarrow>
      watcher cfg gg name waitErr = (None, gg\<lparr>services := (services gg)(name \<mapsto> None)\<rparr>, [])) \<and>
   (\<forall>m. waitErr = Some m \<and> m \<noteq> ''signal: killed'' \<and>
        (serviceLogs gg name \<noteq> None \<or> 0 < MaxLogLines cfg) \<longrightarrow>
      (\<exists>l. fst (watcher cfg gg name waitErr) = None \<and>
           serviceLogs (fst (snd (watcher cfg gg name waitErr))) name = Some l \<and>
           snapshot l \<noteq> [] \<and> last (snapshot l) = ''Exiting... '' @ m))"
proof -
  have a: "lookupCmd (services (fst (snd (watcher cfg gg name waitErr)))) name = None"
    by (auto simp: watcher_def AppendToLog_def lookupCmd_def Let_def split: option.splits sum.splits)
  have b: "waitErr = None \<or> waitErr = Some ''signal: killed'' \<longrightarrow>
      watcher cfg gg name waitErr = (None, gg\<lparr>services := (services gg)(name \<mapsto> None)\<rparr>, [])"
    by (auto simp: watcher_def)
  have c: "\<exists>l. fst (watcher cfg gg name waitErr) = None \<and>
           serviceLogs (fst (snd (watcher cfg gg name waitErr))) name = Some l \<and>
           snapshot l \<noteq> [] \<and> last (snapshot l) = ''Exiting... '' @ m"
    if "waitErr = Some m" "m \<noteq> ''signal: killed''" "serviceLogs gg name \<noteq> None \<or> 0 < MaxLogLines cfg"
    for m
    using that FixedSizeLog_Append_last
    by (cases "serviceLogs gg name")
       (auto simp: watcher_def AppendToLog_def NewFixedSizeLog_def Let_def)
  show ?thesis using a b c by blast
qed

theorem watcher_clears_and_logs_errors_witness:
  "lookupCmd (services (fst (snd (watcher example_cfg example_running ''worker'' (Some ''exit status 1'')))))
      ''worker'' = None \<and>
   (\<exists>l. serviceLogs (fst (snd (watcher example_cfg example_running ''worker'' (Some ''exit status 1''))))
          ''worker'' = Some l \<and>
        last (snapshot l) = ''Exiting... exit status 1'')"
  using watcher_clears_and_logs_errors [of example_cfg example_running "''worker''" "Some ''exit status 1''"]
  by (auto simp: example_cfg_def)

section \<open>Stopping all services\<close>

text \<open>
  Claim C1 as stated fails: one registered service, running, whose kill is
  delivered. \<^verbatim>\<open>StopService("all")\<close> sends the kill and returns nil: no aggregate
  error mentions the service.
\<close>

theorem StopService_all_counterexample:
  "StopService example_os example_running [''worker''] ''all'' = (Nil, [KillSent 7])"
  by (simp add: StopService_def stopServiceInternal_def example_running_services
      example_running_registered lookupCmd_def ErrorOrNil_def example_os_def)

lemma stopServiceInternal_events:
  "snd (stopServiceInternal os gg n) =
     (case registeredServices gg n of
        None \<Rightarrow> []
      | Some ss \<Rightarrow> (case lookupCmd (services gg) n of None \<Rightarrow> [] | Some p \<Rightarrow> [KillSent (cmdPid p)]))"
  by (simp add: stopServiceInternal_def split: option.splits)

lemma stopAllLoop_eq:
  "stopAllLoop os gg ks result =
     (result @ List.map_filter
        (\<lambda>n. map_option (\<lambda>err. ''error stopping service '' @ n @ '': '' @ err)
                (fst (stopServiceInternal os gg n))) ks,
      concat (map (\<lambda>n. snd (stopServiceInternal os gg n)) ks))"
proof (induction ks arbitrary: result)
  case Nil
  then show ?case by (simp add: map_filter_simps)
next
  case (Cons k ks)
  obtain r evs where s: "stopServiceInternal os gg k = (r, evs)"
    by (cases "stopServiceInternal os gg k") auto
  show ?case
    by (cases r) (simp_all add: s Cons.IH map_filter_simps)
qed

lemma kills_registered:
  assumes "set ks \<subseteq> dom (registeredServices gg)"
  shows "concat (map (\<lambda>n. snd (stopServiceInternal os gg n)) ks) =
         List.map_filter (\<lambda>n. map_option (\<lambda>p. KillSent (cmdPid p)) (lookupCmd (services gg) n)) ks"
  using assms
proof (induction ks)
  case Nil
  then show ?case by (simp add: map_filter_simps)
next
  case (Cons k ks)
  then obtain ss where "registeredServices gg k = Some ss" by auto
  then show ?case using Cons
    by (cases "lookupCmd (services gg) k") (simp_all add: stopServiceInternal_events map_filter_simps)
qed

lemma length_map_filter:
  "length (List.map_filter f xs) = length (filter (\<lambda>x. f x \<noteq> None) xs)"
  by (induction xs) (auto simp: map_filter_simps split: option.splits)

text \<open>
  Claim C1, amended. For the sentinel, with \<open>ks\<close> the order in which the range
  visits the registered names, each once: every name is handed to
  \<^verbatim>\<open>stopServiceInternal\<close> once, in that order; a kill is sent to each of the
  \<open>K\<close> running services and to no other; a service that is not running fails
  with "service is not running so can not stop", a running one fails only when its
  kill does; and the aggregate holds one entry for each service that failed, the
  \<open>N - K\<close> that were not running and those whose kill failed, and is nil when none
  failed.
\<close>

theorem StopService_all_aggregates_failures:
  assumes "distinct ks" and "set ks = dom (registeredServices gg)"
    and "name = ''all'' \<or> name = ''''"
  shows "StopService os gg ks name =
      (ErrorOrNil (List.map_filter
          (\<lambda>n. map_option (\<lambda>err. ''error stopping service '' @ n @ '': '' @ err)
                  (fst (stopServiceInternal os gg n))) ks),
       List.map_filter (\<lambda>n. map_option (\<lambda>p. KillSent (cmdPid p)) (lookupCmd (services gg) n)) ks)
    \<and> (\<forall>n \<in> set ks. lookupCmd (services gg) n = None \<longrightarrow>
          fst (stopServiceInternal os gg n) = Some ''service is not running so can not stop'')
    \<and> (\<forall>n \<in> set ks. \<forall>p. lookupCmd (services gg) n = Some p \<longrightarrow>
          fst (stopServiceInternal os gg n) =
            map_option (\<lambda>m. ''couldn't kill service, error was: '' @ m) (killResult os (cmdPid p)))
    \<and> length (List.map_filter (\<lambda>n. map_option (\<lambda>p. KillSent (cmdPid p)) (lookupCmd (services gg) n)) ks)
        = card {n \<in> dom (registeredServices gg). lookupCmd (services gg) n \<noteq> None}
    \<and> length (List.map_filter
          (\<lambda>n. map_option (\<lambda>err. ''error stopping service '' @ n @ '': '' @ err)
                  (fst (stopServiceInternal os gg n))) ks)
        = (card (dom (registeredServices gg))
            - card {n \<in> dom (registeredServices gg). lookupCmd (services gg) n \<noteq> None})
          + card {n \<in> dom (registeredServices gg).
                   \<exists>p m. lookupCmd (services gg) n = Some p \<and> killResult os (cmdPid p) = Some m}"
proof -
  let ?D = "dom (registeredServices gg)"
  let ?run = "{n \<in> ?D. lookupCmd (services gg) n \<noteq> None}"
  let ?bad = "{n \<in> ?D. \<exists>p m. lookupCmd (services gg) n = Some p \<and> killResult os (cmdPid p) = Some m}"
  let ?idle = "{n \<in> ?D. lookupCmd (services gg) n = None}"
  let ?err = "\<lambda>n. map_option (\<lambda>err. ''error stopping service '' @ n @ '': '' @ err)
                  (fst (stopServiceInternal os gg n))"
  have fin: "finite ?D" using assms(2) [symmetric] by simp
  have sub: "set ks \<subseteq> ?D" using assms(2) by simp
  have p1: "StopService os gg ks name =
      (ErrorOrNil (List.map_filter ?err ks),
       List.map_filter (\<lambda>n. map_option (\<lambda>p. KillSent (cmdPid p)) (lookupCmd (services gg) n)) ks)"
    using assms(3) kills_registered [OF sub, of os]
    by (auto simp: StopService_def stopAllLoop_eq)
  have p2: "\<forall>n \<in> set ks. lookupCmd (services gg) n = None \<longrightarrow>
          fst (stopServiceInternal os gg n) = Some ''service is not running so can not stop''"
    using sub by (auto simp: stopServiceInternal_def split: option.splits)
  have p3: "\<forall>n \<in> set ks. \<forall>p. lookupCmd (services gg) n = Some p \<longrightarrow>
          fst (stopServiceInternal os gg n) =
            map_option (\<lambda>m. ''couldn't kill service, error was: '' @ m) (killResult os (cmdPid p))"
    using sub by (auto simp: stopServiceInternal_def split: option.splits)
  have "length (List.map_filter (\<lambda>n. map_option (\<lambda>p. KillSent (cmdPid p)) (lookupCmd (services gg) n)) ks)
        = length (filter (\<lambda>n. lookupCmd (services gg) n \<noteq> None) ks)"
    by (simp add: length_map_filter)
  also have "\<dots> = card ({n. lookupCmd (services gg) n \<noteq> None} \<inter> set ks)"
    using assms(1) by (rule distinct_length_filter)
  also have "{n. lookupCmd (services gg) n \<noteq> None} \<inter> set ks = ?run"
    using assms(2) by auto
  finally have p4: "length (List.map_filter (\<lambda>n. map_option (\<lambda>p. KillSent (cmdPid p)) (lookupCmd (services gg) n)) ks)
        = card ?run" .
  have fails: "{n. ?err n \<noteq> None} \<inter> set ks = ?idle \<union> ?bad"
  proof -
    have "?err n \<noteq> None \<longleftrightarrow>
          (lookupCmd (services gg) n = None \<or>
           (\<exists>p m. lookupCmd (services gg) n = Some p \<and> killResult os (cmdPid p) = Some m))"
      if "n \<in> ?D" for n
      using that by (auto simp: stopServiceInternal_def split: option.splits)
    then show ?thesis using assms(2) by blast
  qed
  have "length (List.map_filter ?err ks) = length (filter (\<lambda>n. ?err n \<noteq> None) ks)"
    by (rule length_map_filter)
  also have "\<dots> = card ({n. ?err n \<noteq> None} \<inter> set ks)"
    using assms(1) by (rule distinct_length_filter)
  also have "\<dots> = card (?idle \<union> ?bad)" by (simp only: fails)
  also have "\<dots> = card ?idle + card ?bad"
    using fin by (intro card_Un_disjoint) auto
  also have "?idle = ?D - ?run" by auto
  also have "card (?D - ?run) = card ?D - card ?run"
    using fin by (intro card_Diff_subset) auto
  finally have p5: "length (List.map_filter ?err ks) = (card ?D - card ?run) + card ?bad" .
  show ?thesis using p1 p2 p3 p4 p5 by blast
qed

theorem StopService_all_aggregates_failures_witness:
  "StopService example_os (RegisterService example_running ''idle'' ''/bin/true'' [])
      [''worker'', ''idle''] ''all'' =
     (Aggregate [''error stopping service idle: service is not running so can not stop''],
      [KillSent 7])"
proof -
  let ?gg = "RegisterService example_running ''idle'' ''/bin/true'' []"
  have d: "distinct [''worker'', ''idle'']" by simp
  have s: "set [''worker'', ''idle''] = dom (registeredServices ?gg)"
    by (auto simp: RegisterService_def example_running_registered)
  have n: "''all'' = ''all'' \<or> ''all'' = ''''" by simp
  have "StopService example_os ?gg [''worker'', ''idle''] ''all'' =
      (ErrorOrNil (List.map_filter
          (\<lambda>n. map_option (\<lambda>err. ''error stopping service '' @ n @ '': '' @ err)
                  (fst (stopServiceInternal example_os ?gg n))) [''worker'', ''idle'']),
       List.map_filter (\<lambda>n. map_option (\<lambda>p. KillSent (cmdPid p)) (lookupCmd (services ?gg) n))
          [''worker'', ''idle''])"
    using StopService_all_aggregates_failures [OF d s n, of example_os] by (rule conjunct1)
  then show ?thesis
    by (simp add: RegisterService_def example_running_registered example_running_services
        stopServiceInternal_def lookupCmd_def map_filter_simps ErrorOrNil_def example_os_def)
qed

section \<open>The two snapshots compared\<close>

text \<open>
  Claim C9 as stated fails: the service \<open>worker\<close> is registered, a timeout is set
  and the child is still running when the grace period ends. The start of
  guardian.go succeeds; the start of the second snapshot panics.
\<close>

theorem snapshots_differ_counterexample:
  "fst (startServiceInternal example_cfg example_os example_registered ''worker'' []) = None
   \<and> fst (StartService_p0 example_cfg example_os (forget example_registered) ''worker'' [])
     = Some (Panic ''invalid memory address or nil pointer dereference'')"
  by (simp add: spawnProcess_p0_def example_defs StartService_p0_def forget_def New_def
      RegisterService_def SetTimeout_def lookupCmd_def checkTimeout_p0_def
      startServiceInternal_def checkTimeout_def spawnProcess_def)

lemma spawnProcess_p0_agrees:
  "\<forall>pid. observe os name \<noteq> Started pid None \<Longrightarrow>
   spawnProcess_p0 os name location e timeout = spawnProcess os name location e timeout"
  by (auto simp: spawnProcess_p0_def spawnProcess_def Let_def
           split: spawn_obs.splits option.splits)

lemma StartService_p0_agrees:
  assumes "\<forall>pid. observe os name \<noteq> Started pid None"
  shows "StartService_p0 cfg os (forget gg) name e =
     (fst (startServiceInternal cfg os gg name e),
      forget (fst (snd (startServiceInternal cfg os gg name e))),
      snd (snd (startServiceInternal cfg os gg name e)))"
proof (cases "registeredServices gg name")
  case None
  then show ?thesis
    by (simp add: StartService_p0_def startServiceInternal_def forget_def)
next
  case (Some ss)
  show ?thesis
  proof (cases "lookupCmd (services gg) name")
    case running: (Some p)
    then show ?thesis using Some
      by (simp add: StartService_p0_def startServiceInternal_def forget_def)
  next
    case idle: None
    show ?thesis
    proof (cases "spawnTimeout gg")
      case None
      then show ?thesis using Some idle
        by (simp add: StartService_p0_def startServiceInternal_def forget_def
            checkTimeout_p0_def checkTimeout_def)
    next
      case (Some t)
      obtain r evs where sp: "spawnProcess os name (execName ss) (env ss) (Some t) = (r, evs)"
        by (cases "spawnProcess os name (execName ss) (env ss) (Some t)") auto
      then have sp0: "spawnProcess_p0 os name (execName ss) (env ss) (Some t) = (r, evs)"
        using spawnProcess_p0_agrees [OF assms] by simp
      show ?thesis
        using \<open>registeredServices gg name = Some ss\<close> idle Some sp sp0
        by (cases r)
           (simp_all add: StartService_p0_def startServiceInternal_def forget_def
              checkTimeout_p0_def checkTimeout_def)
    qed
  qed
qed

lemma AppendToLog_p0_agrees:
  "fst (AppendToLog_p0 cfg (forget gg) name line) = fst (AppendToLog cfg gg name line) \<and>
   fst (snd (AppendToLog_p0 cfg (forget gg) name line)) = forget (fst (snd (AppendToLog cfg gg name line)))"
  by (auto simp: AppendToLog_p0_def AppendToLog_def forget_def split: option.splits sum.splits)

lemma watcher_p0_agrees:
  "fst (watcher_p0 cfg (forget gg) name waitErr) = fst (watcher cfg gg name waitErr) \<and>
   fst (snd (watcher_p0 cfg (forget gg) name waitErr)) = forget (fst (snd (watcher cfg gg name waitErr)))"
  by (auto simp: watcher_p0_def watcher_def AppendToLog_p0_def AppendToLog_def forget_def Let_def
           split: option.splits sum.splits)

text \<open>
  Claim C9, amended. On the state both snapshots have (timeout, registry, process
  table, logs) they agree in: registering, setting the timeout, the timeout check,
  the status of all services, stopping one service, starting one service unless the
  child is still running when the grace period ends, and the error and the buffers
  of an append to the log and of the watcher. Nothing is said here about stopping
  all services, a status query by name, or the subscribers.
\<close>

theorem snapshots_agree_on_shared_state:
  "forget (RegisterService gg name execLocation e) = RegisterService_p0 (forget gg) name execLocation e
   \<and> forget (SetTimeout gg t) = SetTimeout_p0 (forget gg) t
   \<and> checkTimeout_p0 (forget gg) = checkTimeout gg
   \<and> GetServicesStatus_p0 (forget gg) = GetServicesStatus gg ''all''
   \<and> StopService_p0 os (forget gg) name = stopServiceInternal os gg name
   \<and> ((\<forall>pid. observe os name \<noteq> Started pid None) \<longrightarrow>
        StartService_p0 cfg os (forget gg) name e =
          (fst (startServiceInternal cfg os gg name e),
           forget (fst (snd (startServiceInternal cfg os gg name e))),
           snd (snd (startServiceInternal cfg os gg name e))))
   \<and> fst (AppendToLog_p0 cfg (forget gg) name line) = fst (AppendToLog cfg gg name line)
   \<and> fst (snd (AppendToLog_p0 cfg (forget gg) name line))
       = forget (fst (snd (AppendToLog cfg gg name line)))
   \<and> fst (watcher_p0 cfg (forget gg) name waitErr) = fst (watcher cfg gg name waitErr)
   \<and> fst (snd (watcher_p0 cfg (forget gg) name waitErr))
       = forget (fst (snd (watcher cfg gg name waitErr)))
   \<and> AddLogClient_p0 (forget gg) upgraded = forget (AddLogClient gg name upgraded)"
proof -
  have a: "forget (RegisterService gg name execLocation e) = RegisterService_p0 (forget gg) name execLocation e"
    by (simp add: forget_def RegisterService_def RegisterService_p0_def)
  have b: "forget (SetTimeout gg t) = SetTimeout_p0 (forget gg) t"
    by (simp add: forget_def SetTimeout_def SetTimeout_p0_def)
  have c: "checkTimeout_p0 (forget gg) = checkTimeout gg"
    by (simp add: forget_def checkTimeout_def checkTimeout_p0_def)
  have d: "GetServicesStatus_p0 (forget gg) = GetServicesStatus gg ''all''"
    by (simp add: forget_def GetServicesStatus_def GetServicesStatus_p0_def)
  have f: "StopService_p0 os (forget gg) name = stopServiceInternal os gg name"
    by (simp add: forget_def StopService_p0_def stopServiceInternal_def split: option.splits)
  have g: "AddLogClient_p0 (forget gg) upgraded = forget (AddLogClient gg name upgraded)"
    by (cases upgraded) (simp_all add: forget_def AddLogClient_def AddLogClient_p0_def)
  note h = StartService_p0_agrees [of os name cfg gg e]
  note i = AppendToLog_p0_agrees [of cfg gg name line]
  note j = watcher_p0_agrees [of cfg gg name waitErr]
  show ?thesis
    apply (intro conjI impI)
              apply (rule a)
             apply (rule b)
            apply (rule c)
           apply (rule d)
          apply (rule f)
         apply (erule h)
        apply (rule i [THEN conjunct1])
       apply (rule i [THEN conjunct2])
      apply (rule j [THEN conjunct1])
     apply (rule j [THEN conjunct2])
    apply (rule g)
    done
qed

theorem snapshots_agree_on_shared_state_witness:
  "(\<forall>pid. observe (example_os\<lparr>observe := (\<lambda>n. Started 7 (Some (ProcessState False)))\<rparr>) ''worker''
        \<noteq> Started pid None) \<and>
   StartService_p0 example_cfg (example_os\<lparr>observe := (\<lambda>n. Started 7 (Some (ProcessState False)))\<rparr>)
      (forget example_registered) ''worker'' [] =
     (None,
      forget (example_registered\<lparr>services := (services example_registered)
         (''worker'' \<mapsto> Some \<lparr>cmdPid = 7, cmdEnv = [''A=1''], cmdPath = ''/bin/sleep''\<rparr>)\<rparr>),
      [ProcStarted 7 ''/bin/sleep'' [''A=1'']])"
proof -
  let ?os = "example_os\<lparr>observe := (\<lambda>n. Started 7 (Some (ProcessState False)))\<rparr>"
  have h: "\<forall>pid. observe ?os ''worker'' \<noteq> Started pid None" by simp
  have s: "startServiceInternal example_cfg ?os example_registered ''worker'' [] =
     (None,
      example_registered\<lparr>services := (services example_registered)
         (''worker'' \<mapsto> Some \<lparr>cmdPid = 7, cmdEnv = [''A=1''], cmdPath = ''/bin/sleep''\<rparr>)\<rparr>,
      [ProcStarted 7 ''/bin/sleep'' [''A=1'']])"
    by (simp add: example_defs startServiceInternal_def checkTimeout_def spawnProcess_def
        New_def RegisterService_def SetTimeout_def lookupCmd_def)
  have "(\<forall>pid. observe ?os ''worker'' \<noteq> Started pid None) \<longrightarrow>
        StartService_p0 example_cfg ?os (forget example_registered) ''worker'' [] =
          (fst (startServiceInternal example_cfg ?os example_registered ''worker'' []),
           forget (fst (snd (startServiceInternal example_cfg ?os example_registered ''worker'' []))),
           snd (snd (startServiceInternal example_cfg ?os example_registered ''worker'' [])))"
    by (rule snapshots_agree_on_shared_state [where gg = example_registered and name = "''worker''"
          and os = ?os and cfg = example_cfg and e = "[]",
          THEN conjunct2, THEN conjunct2, THEN conjunct2, THEN conjunct2, THEN conjunct2,
          THEN conjunct1])
  then have "StartService_p0 example_cfg ?os (forget example_registered) ''worker'' [] =
          (fst (startServiceInternal example_cfg ?os example_registered ''worker'' []),
           forget (fst (snd (startServiceInternal example_cfg ?os example_registered ''worker'' []))),
           snd (snd (startServiceInternal example_cfg ?os example_registered ''worker'' [])))"
    using h by (rule mp)
  then show ?thesis using h by (simp only: s fst_conv snd_conv simp_thms)
qed

end
